theory Spec2Isabelle
  imports Complex_Main "HOL-Library.Word"
begin

section \<open>Strings of the source language\<close>

text \<open>
  A string of the worker is a sequence of UTF-16 code units: \<open>length\<close>, \<open>slice\<close>,
  \<open>trim\<close> and the regular expressions of \<open>src/index.ts\<close> (none of them has the
  \<open>u\<close> flag) all count and compare code units.
\<close>

type_synonym cu = "16 word"
type_synonym jsstring = "cu list"

definition js :: "string \<Rightarrow> jsstring" where
  "js s = map (\<lambda>c. of_nat (of_char c)) s"

text \<open>
  The code units removed by \<open>String.prototype.trim\<close> and matched by \<open>\s\<close>: the
  WhiteSpace and LineTerminator productions of ECMAScript.
\<close>

definition isWhiteSpace :: "cu \<Rightarrow> bool" where
  "isWhiteSpace c =
     (c = 0x9 \<or> c = 0xA \<or> c = 0xB \<or> c = 0xC \<or> c = 0xD \<or> c = 0x20 \<or> c = 0xA0
      \<or> c = 0x1680 \<or> (0x2000 \<le> c \<and> c \<le> 0x200A) \<or> c = 0x2028 \<or> c = 0x2029
      \<or> c = 0x202F \<or> c = 0x205F \<or> c = 0x3000 \<or> c = 0xFEFF)"

definition trim :: "jsstring \<Rightarrow> jsstring" where
  "trim s = rev (dropWhile isWhiteSpace (rev (dropWhile isWhiteSpace s)))"

text \<open>
  \<open>String.prototype.slice(start, end)\<close> on integral arguments: a negative index counts
  from the end, both ends are clamped to the string, an empty span gives the empty string.
\<close>

definition slice :: "jsstring \<Rightarrow> int \<Rightarrow> int \<Rightarrow> jsstring" where
  "slice s start end =
     (let len = int (length s);
          from = (if start < 0 then max (len + start) 0 else min start len);
          to = (if end < 0 then max (len + end) 0 else min end len)
      in take (nat (to - from)) (drop (nat from) s))"

section \<open>Chunker and truncator\<close>

definition RAW_PREVIEW_LIMIT :: int where "RAW_PREVIEW_LIMIT = 1800"
definition CHILD_BLOCK_LIMIT :: int where "CHILD_BLOCK_LIMIT = 1500"
definition TITLE_LIMIT :: int where "TITLE_LIMIT = 200"

text \<open>
  \<open>truncateText(value, limit)\<close>: \<open>if (!value) return ""\<close>, then
  \<open>value.length > limit ? value.slice(0, limit) : value\<close>. The limit is a number of the
  source; the model takes the integers.
\<close>

definition truncateText :: "jsstring \<Rightarrow> int \<Rightarrow> jsstring" where
  "truncateText v limit =
     (if v = [] then []
      else if int (length v) > limit then slice v 0 limit else v)"

text \<open>
  \<open>splitIntoChunks(text, limit)\<close>: the \<open>for\<close> loop
  \<open>for (let i = 0; i < text.length; i += limit) chunks.push(text.slice(i, i + limit))\<close>.
  With \<open>limit \<le> 0\<close> and a non-empty text the index never reaches the length and the loop
  does not end, so the loop is a partial function: \<open>None\<close> is "does not return".
\<close>

partial_function (option) splitLoop ::
  "jsstring \<Rightarrow> int \<Rightarrow> int \<Rightarrow> jsstring list \<Rightarrow> jsstring list option" where
  "splitLoop text limit i chunks =
     (if i < int (length text)
      then splitLoop text limit (i + limit) (chunks @ [slice text i (i + limit)])
      else Some chunks)"

declare splitLoop.simps [code]

definition splitIntoChunks :: "jsstring \<Rightarrow> int \<Rightarrow> jsstring list option" where
  "splitIntoChunks text limit = (if text = [] then Some [] else splitLoop text limit 0 [])"

text \<open>
  The number of chunks the claims speak of, the ceiling of \<open>length / limit\<close>, and the
  \<open>k\<close>-th window of width \<open>n\<close> of a string, for stating what the loop returns.
\<close>

definition chunkCount :: "nat \<Rightarrow> nat \<Rightarrow> nat" where
  "chunkCount len n = (len + n - 1) div n"

definition windows :: "jsstring \<Rightarrow> nat \<Rightarrow> nat \<Rightarrow> jsstring list" where
  "windows s n i = map (\<lambda>k. take n (drop (i + k * n) s)) [0 ..< chunkCount (length s - i) n]"

section \<open>Regular expressions of the source\<close>

text \<open>
  The patterns of \<open>src/index.ts\<close> are built from single code-unit classes, sequence,
  ordered alternation, greedy repetition of a class, the anchor \<open>^\<close> and one capturing
  group. The matcher is the backtracking matcher of ECMAScript in continuation-passing
  style: \<open>rxm r k st\<close> matches \<open>r\<close> at state \<open>st\<close> (index, remaining input, capture)
  and hands every end state, longest repetition first and left alternative first, to the
  continuation \<open>k\<close> until one succeeds.
\<close>

datatype rx =
    Any "cu \<Rightarrow> bool"
  | Bol
  | Emp
  | Seq rx rx
  | Alt rx rx
  | Star "cu \<Rightarrow> bool"
  | Grp rx

type_synonym mstate = "nat \<times> jsstring \<times> jsstring option"

fun greedy ::
  "(cu \<Rightarrow> bool) \<Rightarrow> (mstate \<Rightarrow> mstate option) \<Rightarrow> nat \<Rightarrow> jsstring option \<Rightarrow> jsstring
     \<Rightarrow> mstate option" where
  "greedy p k i c [] = k (i, [], c)"
| "greedy p k i c (x # xs) =
     (if p x
      then (case greedy p k (Suc i) c xs of Some r \<Rightarrow> Some r | None \<Rightarrow> k (i, x # xs, c))
      else k (i, x # xs, c))"

fun rxm :: "rx \<Rightarrow> (mstate \<Rightarrow> mstate option) \<Rightarrow> mstate \<Rightarrow> mstate option" where
  "rxm (Any p) k (i, s, c) =
     (case s of [] \<Rightarrow> None | x # xs \<Rightarrow> if p x then k (Suc i, xs, c) else None)"
| "rxm Bol k (i, s, c) = (if i = 0 then k (i, s, c) else None)"
| "rxm Emp k st = k st"
| "rxm (Seq a b) k st = rxm a (rxm b k) st"
| "rxm (Alt a b) k st = (case rxm a k st of Some r \<Rightarrow> Some r | None \<Rightarrow> rxm b k st)"
| "rxm (Star p) k (i, s, c) = greedy p k i c s"
| "rxm (Grp a) k (i, s, c) =
     rxm a (\<lambda>(j, s', _). k (j, s', Some (take (j - i) s))) (i, s, c)"

text \<open>
  \<open>RegExp.prototype.exec\<close> without the \<open>g\<close> flag tries every start index from the
  left; the result is the start, the end and the capture of the first match.
\<close>

fun execFrom :: "rx \<Rightarrow> nat \<Rightarrow> jsstring \<Rightarrow> (nat \<times> nat \<times> jsstring option) option" where
  "execFrom r i [] =
     (case rxm r Some (i, [], None) of Some (j, _, c) \<Rightarrow> Some (i, j, c) | None \<Rightarrow> None)"
| "execFrom r i (x # xs) =
     (case rxm r Some (i, x # xs, None) of
        Some (j, _, c) \<Rightarrow> Some (i, j, c)
      | None \<Rightarrow> execFrom r (Suc i) xs)"

definition exec :: "rx \<Rightarrow> jsstring \<Rightarrow> (nat \<times> nat \<times> jsstring option) option" where
  "exec r s = execFrom r 0 s"

definition test :: "rx \<Rightarrow> jsstring \<Rightarrow> bool" where
  "test r s = (exec r s \<noteq> None)"

definition replaceFirst :: "rx \<Rightarrow> jsstring \<Rightarrow> jsstring \<Rightarrow> jsstring" where
  "replaceFirst r rep s =
     (case exec r s of None \<Rightarrow> s | Some (i, j, _) \<Rightarrow> take i s @ rep @ drop j s)"

text \<open>
  \<open>String.prototype.replace\<close> with a \<open>g\<close> pattern replaces the matches found from
  left to right, each search resuming where the last match ended (one code unit further
  after an empty match). \<open>skip\<close> counts the code units of the current match still to
  be passed over.
\<close>

fun replaceFrom :: "rx \<Rightarrow> jsstring \<Rightarrow> nat \<Rightarrow> nat \<Rightarrow> jsstring \<Rightarrow> jsstring" where
  "replaceFrom r rep i skip [] =
     (if skip = 0 \<and> rxm r Some (i, [], None) \<noteq> None then rep else [])"
| "replaceFrom r rep i skip (x # xs) =
     (if 0 < skip then replaceFrom r rep (Suc i) (skip - 1) xs
      else (case rxm r Some (i, x # xs, None) of
              None \<Rightarrow> x # replaceFrom r rep (Suc i) 0 xs
            | Some (j, _, _) \<Rightarrow>
                if i < j then rep @ replaceFrom r rep (Suc i) (j - i - 1) xs
                else rep @ x # replaceFrom r rep (Suc i) 0 xs))"

definition replaceAll :: "rx \<Rightarrow> jsstring \<Rightarrow> jsstring \<Rightarrow> jsstring" where
  "replaceAll r rep s = replaceFrom r rep 0 0 s"

definition seqs :: "rx list \<Rightarrow> rx" where
  "seqs rs = foldr Seq rs Emp"

definition Opt :: "rx \<Rightarrow> rx" where
  "Opt r = Alt r Emp"

definition Plus :: "(cu \<Rightarrow> bool) \<Rightarrow> rx" where
  "Plus p = Seq (Any p) (Star p)"

text \<open>
  With the \<open>i\<close> flag and no \<open>u\<close> flag a code unit is compared after Canonicalize,
  which maps to upper case but never maps a code unit above 127 to one below 128: a
  pattern character of ASCII matches its two ASCII cases and nothing else.
\<close>

definition upperAscii :: "cu \<Rightarrow> cu" where
  "upperAscii c = (if 0x61 \<le> c \<and> c \<le> 0x7A then c - 0x20 else c)"

definition ciEq :: "cu \<Rightarrow> cu \<Rightarrow> bool" where
  "ciEq a c = (c < 0x80 \<and> upperAscii c = upperAscii a)"

definition lit :: "string \<Rightarrow> rx" where
  "lit s = seqs (map (\<lambda>a. Any (\<lambda>c. c = a)) (js s))"

definition liti :: "string \<Rightarrow> rx" where
  "liti s = seqs (map (\<lambda>a. Any (ciEq a)) (js s))"

definition isWordChar :: "cu \<Rightarrow> bool" where
  "isWordChar c =
     ((0x41 \<le> c \<and> c \<le> 0x5A) \<or> (0x61 \<le> c \<and> c \<le> 0x7A) \<or> (0x30 \<le> c \<and> c \<le> 0x39) \<or> c = 0x5F)"

definition ch :: "char \<Rightarrow> cu" where
  "ch a = of_nat (of_char a)"

text \<open>The least number of code units a match of a pattern takes.\<close>

fun minLen :: "rx \<Rightarrow> nat" where
  "minLen (Any p) = 1"
| "minLen Bol = 0"
| "minLen Emp = 0"
| "minLen (Seq a b) = minLen a + minLen b"
| "minLen (Alt a b) = min (minLen a) (minLen b)"
| "minLen (Star p) = 0"
| "minLen (Grp a) = minLen a"

section \<open>Title builder\<close>

text \<open>The test \<open>/inbox/i\<close> of the earlier revision of \<open>email\<close> (lines 36 to 42).\<close>

definition inboxRx :: rx where
  "inboxRx = liti ''inbox''"

text \<open>\<open>/^\s*(?:\[\s*inbox\s*\]|inbox)\s*[:\-\u2013\u2014]*\s*/i\<close> of \<open>normalizeTitle\<close>.\<close>

definition titlePrefixRx :: rx where
  "titlePrefixRx =
     seqs [Bol, Star isWhiteSpace,
           Alt (seqs [lit ''['', Star isWhiteSpace, liti ''inbox'', Star isWhiteSpace, lit '']''])
               (liti ''inbox''),
           Star isWhiteSpace,
           Star (\<lambda>c. c = ch CHR '':'' \<or> c = ch CHR ''-'' \<or> c = 0x2013 \<or> c = 0x2014),
           Star isWhiteSpace]"

definition normalizeTitle :: "jsstring \<Rightarrow> jsstring" where
  "normalizeTitle subject = trim (replaceFirst titlePrefixRx [] subject)"

definition buildTitle :: "jsstring \<Rightarrow> jsstring \<Rightarrow> jsstring" where
  "buildTitle subject receivedAt =
     (let normalized = normalizeTitle subject
      in if normalized \<noteq> [] then normalized
         else js ''Inbox email '' @ slice receivedAt 0 10)"


section \<open>Body resolver and text normalizer\<close>

text \<open>The six \<open>replace\<close> calls of \<open>decodeHtmlEntities\<close>, the first one innermost.\<close>

definition decodeHtmlEntities :: "jsstring \<Rightarrow> jsstring" where
  "decodeHtmlEntities t =
     replaceAll (liti ''&#39;'') (js [CHR 0x27])
       (replaceAll (liti ''&quot;'') (js [CHR 0x22])
         (replaceAll (liti ''&amp;'') (js ''&'')
           (replaceAll (liti ''&gt;'') (js ''>'')
             (replaceAll (liti ''&lt;'') (js ''<'')
               (replaceAll (liti ''&nbsp;'') (js '' '') t)))))"

text \<open>
  \<open>htmlToText\<close>: \<open>/<\s*br\s*\/?\s*>/gi\<close>, \<open>/<\s*\/p\s*>/gi\<close> and
  \<open>/<\s*\/div\s*>/gi\<close> become a line feed, \<open>/<[^>]+>/g\<close> is removed, then the
  entities are decoded.
\<close>

definition htmlToText :: "jsstring \<Rightarrow> jsstring" where
  "htmlToText html =
     (let withBreaks =
            replaceAll (seqs [lit ''<'', Star isWhiteSpace, lit ''/'', liti ''div'',
                              Star isWhiteSpace, lit ''>'']) [0xA]
              (replaceAll (seqs [lit ''<'', Star isWhiteSpace, lit ''/'', liti ''p'',
                                 Star isWhiteSpace, lit ''>'']) [0xA]
                (replaceAll (seqs [lit ''<'', Star isWhiteSpace, liti ''br'', Star isWhiteSpace,
                                   Opt (lit ''/''), Star isWhiteSpace, lit ''>'']) [0xA] html));
          stripped = replaceAll (seqs [lit ''<'', Plus (\<lambda>c. c \<noteq> ch CHR ''>''), lit ''>'']) []
                       withBreaks
      in decodeHtmlEntities stripped)"

datatype bodySource = SrcText | SrcHtml | SrcRaw | SrcEmpty

record resolved =
  body :: jsstring
  source :: bodySource

text \<open>
  The guard \<open>x && x.trim().length\<close> on an optional string: the string when it is given,
  not empty and not empty after trimming.
\<close>

definition usable :: "jsstring option \<Rightarrow> jsstring option" where
  "usable v =
     (case v of
        None \<Rightarrow> None
      | Some s \<Rightarrow> if s \<noteq> [] \<and> length (trim s) \<noteq> 0 then Some s else None)"

definition resolveMailText ::
  "jsstring option \<Rightarrow> jsstring option \<Rightarrow> jsstring option \<Rightarrow> resolved" where
  "resolveMailText text html rawFallback =
     (case usable text of
        Some t \<Rightarrow> \<lparr>body = trim t, source = SrcText\<rparr>
      | None \<Rightarrow>
          (case usable html of
             Some h \<Rightarrow> \<lparr>body = trim (htmlToText h), source = SrcHtml\<rparr>
           | None \<Rightarrow>
               (case usable rawFallback of
                  Some r \<Rightarrow> \<lparr>body = trim r, source = SrcRaw\<rparr>
                | None \<Rightarrow> \<lparr>body = [], source = SrcEmpty\<rparr>)))"

text \<open>What the specification calls non-blank: some code unit is not white space.\<close>

definition nonBlank :: "jsstring option \<Rightarrow> bool" where
  "nonBlank v = (case v of None \<Rightarrow> False | Some s \<Rightarrow> \<exists>c \<in> set s. \<not> isWhiteSpace c)"

section \<open>The runtime and the document API\<close>

text \<open>
  The runtime, not the repository, supplies \<open>TextEncoder.encode\<close>,
  \<open>crypto.subtle.digest("SHA-256", _)\<close>, \<open>String.prototype.toLowerCase\<close>,
  \<open>new Date(_).toISOString()\<close> (which throws on an unparsable date: \<open>None\<close>) and the
  HTTP call to the document API (which may reject: \<open>None\<close>). They are the fields of the
  platform the functions below are run on.
\<close>

datatype propertyValue = Title jsstring | Date jsstring | Select jsstring | RichText jsstring

datatype block = Paragraph jsstring

record pageCreate =
  authorization :: jsstring
  notionVersion :: jsstring
  database_id :: "jsstring option"
  properties :: "(jsstring \<times> propertyValue) list"
  children :: "block list option"

record notionResponse =
  status :: nat
  message :: "jsstring option"

record platform =
  encode :: "jsstring \<Rightarrow> 8 word list"
  digest :: "8 word list \<Rightarrow> 8 word list"
  toLowerCase :: "jsstring \<Rightarrow> jsstring"
  toISOString :: "jsstring \<Rightarrow> jsstring option"
  notionPages :: "pageCreate \<Rightarrow> notionResponse option"

section \<open>Fingerprint builder\<close>

definition hexDigit :: "nat \<Rightarrow> cu" where
  "hexDigit d = (if d < 10 then 0x30 + of_nat d else 0x61 + of_nat (d - 10))"

text \<open>\<open>Number.prototype.toString(16)\<close> on a natural number.\<close>

fun toString16 :: "nat \<Rightarrow> jsstring" where
  "toString16 n = (if n < 16 then [hexDigit n] else toString16 (n div 16) @ [hexDigit (n mod 16)])"

declare toString16.simps [simp del]

definition padStart :: "jsstring \<Rightarrow> nat \<Rightarrow> jsstring \<Rightarrow> jsstring" where
  "padStart s n fill =
     (if n \<le> length s \<or> fill = [] then s
      else take (n - length s) (concat (replicate (n - length s) fill)) @ s)"

definition sha256Hex :: "platform \<Rightarrow> jsstring \<Rightarrow> jsstring" where
  "sha256Hex P v =
     (let data = encode P v; dg = digest P data
      in concat (map (\<lambda>byte. padStart (toString16 (unat byte)) 2 (js ''0'')) dg))"

record fingerprintInput =
  fp_from :: "jsstring option"
  fp_subject :: jsstring
  fp_date :: jsstring
  fp_body :: jsstring

definition buildFingerprint :: "platform \<Rightarrow> fingerprintInput \<Rightarrow> jsstring" where
  "buildFingerprint P inp =
     (let bodyHash = sha256Hex P (fp_body inp);
          material = (case fp_from inp of None \<Rightarrow> [] | Some f \<Rightarrow> f) @ js ''|''
                     @ fp_subject inp @ js ''|'' @ fp_date inp @ js ''|'' @ bodyHash
      in sha256Hex P material)"


section \<open>Record assembler\<close>


definition buildChildrenBlocks :: "jsstring \<Rightarrow> jsstring option \<Rightarrow> block list option" where
  "buildChildrenBlocks text fromAddress =
     (let blocks = (case fromAddress of
                      None \<Rightarrow> []
                    | Some a \<Rightarrow> if a \<noteq> [] then [Paragraph (js ''From: '' @ a)] else [])
      in case splitIntoChunks text CHILD_BLOCK_LIMIT of
           None \<Rightarrow> None
         | Some chunks \<Rightarrow>
             Some (blocks @ map Paragraph (filter (\<lambda>chunk. length (trim chunk) \<noteq> 0) chunks)))"

section \<open>Sender address and allowlist\<close>

text \<open>
  The argument of \<open>extractFromAddress\<close> is untyped in the source: nothing (\<open>undefined\<close>
  or \<open>null\<close>), a string, an array, or an object with the optional fields \<open>address\<close>
  and \<open>value\<close>.
\<close>

datatype addressLike =
    Absent
  | AStr jsstring
  | AList "addressLike list"
  | AObj "jsstring option" addressLike

definition truthy :: "jsstring option \<Rightarrow> bool" where
  "truthy v = (case v of None \<Rightarrow> False | Some s \<Rightarrow> s \<noteq> [])"

definition truthyAddr :: "addressLike \<Rightarrow> bool" where
  "truthyAddr a = (case a of Absent \<Rightarrow> False | AStr s \<Rightarrow> s \<noteq> [] | _ \<Rightarrow> True)"

text \<open>\<open>/[\w.+-]+@[\w.-]+/\<close> of \<open>extractEmailFromString\<close>.\<close>

definition emailRx :: rx where
  "emailRx =
     seqs [Plus (\<lambda>c. isWordChar c \<or> c = ch CHR ''.'' \<or> c = ch CHR ''+'' \<or> c = ch CHR ''-''),
           lit ''@'',
           Plus (\<lambda>c. isWordChar c \<or> c = ch CHR ''.'' \<or> c = ch CHR ''-'')]"

definition extractEmailFromString :: "jsstring \<Rightarrow> jsstring" where
  "extractEmailFromString v =
     (case exec emailRx v of
        Some (i, j, _) \<Rightarrow> take (j - i) (drop i v)
      | None \<Rightarrow> trim v)"

fun extractFromAddress :: "addressLike \<Rightarrow> jsstring option" where
  "extractFromAddress Absent = None"
| "extractFromAddress (AStr s) = (if s = [] then None else Some (extractEmailFromString s))"
| "extractFromAddress (AList []) = None"
| "extractFromAddress (AList (x # xs)) = extractFromAddress x"
| "extractFromAddress (AObj address v) =
     (if truthy address then address
      else if truthyAddr v then extractFromAddress v
      else None)"

text \<open>\<open>String.prototype.split\<close> with a separator of one code unit.\<close>

fun splitOn :: "cu \<Rightarrow> jsstring \<Rightarrow> jsstring list" where
  "splitOn sep [] = [[]]"
| "splitOn sep (x # xs) =
     (if x = sep then [] # splitOn sep xs
      else (case splitOn sep xs of [] \<Rightarrow> [[x]] | h # t \<Rightarrow> (x # h) # t))"

text \<open>The \<open>Set\<close> of \<open>parseAllowlist\<close> is read by \<open>has\<close> only: a list of its entries.\<close>

definition parseAllowlist :: "platform \<Rightarrow> jsstring option \<Rightarrow> jsstring list option" where
  "parseAllowlist P allowedFrom =
     (case allowedFrom of
        None \<Rightarrow> None
      | Some a \<Rightarrow>
          if a = [] then None
          else (let entries = filter (\<lambda>e. e \<noteq> [])
                                (map (\<lambda>entry. toLowerCase P (trim entry)) (splitOn (ch CHR '','') a))
                in if entries \<noteq> [] then Some entries else None))"

section \<open>Configuration\<close>

record env =
  NOTION_TOKEN :: "jsstring option"
  INBOX_DB_ID :: "jsstring option"
  NOTION_VERSION :: "jsstring option"
  ALLOWED_FROM :: "jsstring option"
  SOURCE_AS_RICH_TEXT :: "jsstring option"
  WORKERS_BEARER_TOKEN :: "jsstring option"
  TITLE_PROPERTY :: "jsstring option"
  CREATED_PROPERTY :: "jsstring option"
  SOURCE_PROPERTY :: "jsstring option"
  RAW_PROPERTY :: "jsstring option"
  FINGERPRINT_PROPERTY :: "jsstring option"

datatype error =
    MissingEnv "jsstring list"
  | RangeError
  | FetchRejected
  | NotionPropertyMissing jsstring
  | NotionApiError nat

definition validateEnv :: "env \<Rightarrow> error + unit" where
  "validateEnv e =
     (let missing = (if \<not> truthy (NOTION_TOKEN e) then [js ''NOTION_TOKEN''] else [])
                    @ (if \<not> truthy (INBOX_DB_ID e) then [js ''INBOX_DB_ID''] else [])
                    @ (if \<not> truthy (WORKERS_BEARER_TOKEN e) then [js ''WORKERS_BEARER_TOKEN''] else [])
      in if missing \<noteq> [] then Inl (MissingEnv missing) else Inr ())"

text \<open>\<open>x ?? d\<close> on an optional string.\<close>

definition orElse :: "jsstring option \<Rightarrow> jsstring \<Rightarrow> jsstring" where
  "orElse v d = (case v of None \<Rightarrow> d | Some s \<Rightarrow> s)"

record propertyNames =
  pn_title :: jsstring
  pn_created :: jsstring
  pn_source :: jsstring
  pn_raw :: jsstring
  pn_fingerprint :: jsstring

definition resolvePropertyNames :: "env \<Rightarrow> propertyNames" where
  "resolvePropertyNames e =
     \<lparr>pn_title = orElse (TITLE_PROPERTY e) (js ''Name''),
      pn_created = orElse (CREATED_PROPERTY e) (js ''Created''),
      pn_source = orElse (SOURCE_PROPERTY e) (js ''Source''),
      pn_raw = orElse (RAW_PROPERTY e) (js ''Raw''),
      pn_fingerprint = orElse (FINGERPRINT_PROPERTY e) (js ''Fingerprint'')\<rparr>"

definition buildSourceProperty :: "platform \<Rightarrow> jsstring option \<Rightarrow> propertyValue" where
  "buildSourceProperty P sourceAsRichText =
     (if map_option (toLowerCase P) sourceAsRichText = Some (js ''true'')
      then RichText (js ''Email'')
      else Select (js ''Email''))"

section \<open>Delivery and the two handlers\<close>

text \<open>
  \<open>/property(?:\s+name)?\s+"?([A-Za-z0-9 _-]+)"?\s+does not exist/i\<close> of
  \<open>extractMissingProperty\<close>; the result is the capture.
\<close>

definition missingPropertyRx :: rx where
  "missingPropertyRx =
     seqs [liti ''property'', Opt (seqs [Plus isWhiteSpace, liti ''name'']), Plus isWhiteSpace,
           Opt (lit [CHR 0x22]),
           Grp (Plus (\<lambda>c. isWordChar c \<or> c = ch CHR '' '' \<or> c = ch CHR ''-'')),
           Opt (lit [CHR 0x22]), Plus isWhiteSpace, liti ''does not exist'']"

definition extractMissingProperty :: "jsstring \<Rightarrow> jsstring option" where
  "extractMissingProperty m = (case exec missingPropertyRx m of Some (_, _, c) \<Rightarrow> c | None \<Rightarrow> None)"

text \<open>\<open>String.prototype.indexOf\<close>: the first index where the pattern starts, or -1.\<close>

fun indexOfFrom :: "jsstring \<Rightarrow> int \<Rightarrow> jsstring \<Rightarrow> int" where
  "indexOfFrom pat i [] = (if pat = [] then i else - 1)"
| "indexOfFrom pat i (x # xs) =
     (if take (length pat) (x # xs) = pat then i else indexOfFrom pat (i + 1) xs)"

text \<open>
  \<open>decodeRawText\<close> on the text the decoder gives for the raw bytes: what follows the first
  match of \<open>/\r?\n\r?\n/\<close>, or all of it.
\<close>

definition decodeRawText :: "jsstring \<Rightarrow> jsstring" where
  "decodeRawText decoded =
     (case exec (seqs [Opt (Any (\<lambda>c. c = 0xD)), Any (\<lambda>c. c = 0xA),
                       Opt (Any (\<lambda>c. c = 0xD)), Any (\<lambda>c. c = 0xA)]) decoded of
        None \<Rightarrow> decoded
      | Some (i, j, _) \<Rightarrow>
          (let headerSplit = take (j - i) (drop i decoded);
               index = indexOfFrom headerSplit 0 decoded
           in slice decoded (index + int (length headerSplit)) (int (length decoded))))"

text \<open>The fields of a parsed mail that the worker reads.\<close>

record mail =
  mail_subject :: "jsstring option"
  mail_text :: "jsstring option"
  mail_html :: "jsstring option"
  mail_from :: addressLike
  mail_date :: "jsstring option"

definition ok :: "notionResponse \<Rightarrow> bool" where
  "ok r = (200 \<le> status r \<and> status r \<le> 299)"

text \<open>
  \<open>handleNotionCreate\<close>. The result is \<open>None\<close> when the call does not return, and else
  the requests sent to the document API together with an error thrown or a normal return.
  \<open>receivedAt\<close> and \<open>now\<close> are the two readings of the clock. Log calls are left out.
\<close>

definition handleNotionCreate ::
  "platform \<Rightarrow> env \<Rightarrow> jsstring \<Rightarrow> jsstring \<Rightarrow> mail \<Rightarrow> resolved \<Rightarrow> jsstring option
     \<Rightarrow> (pageCreate list \<times> (error + unit)) option" where
  "handleNotionCreate P e receivedAt now m res messageFrom =
     (let subject = orElse (mail_subject m) [];
          fromAddress = (case extractFromAddress (mail_from m) of
                           Some a \<Rightarrow> Some a
                         | None \<Rightarrow> messageFrom);
          allowlist = parseAllowlist P (ALLOWED_FROM e)
      in if (case allowlist of
               None \<Rightarrow> False
             | Some entries \<Rightarrow>
                 \<not> truthy fromAddress \<or> toLowerCase P (orElse fromAddress []) \<notin> set entries)
         then Some ([], Inr ())
         else
           (let rawText = body res;
                rawPreview = truncateText rawText RAW_PREVIEW_LIMIT;
                createdAt = now;
                title = truncateText (buildTitle subject receivedAt) TITLE_LIMIT
            in case (if truthy (mail_date m) then toISOString P (orElse (mail_date m) [])
                     else Some createdAt) of
                 None \<Rightarrow> Some ([], Inl RangeError)
               | Some date \<Rightarrow>
                   (let fingerprint = buildFingerprint P
                          \<lparr>fp_from = fromAddress, fp_subject = subject, fp_date = date,
                           fp_body = rawText\<rparr>;
                        names = resolvePropertyNames e;
                        props = [(pn_title names, Title title),
                                 (pn_created names, Date createdAt),
                                 (pn_source names, buildSourceProperty P (SOURCE_AS_RICH_TEXT e)),
                                 (pn_raw names, RichText rawPreview),
                                 (pn_fingerprint names, RichText fingerprint)]
                    in case buildChildrenBlocks rawText fromAddress of
                         None \<Rightarrow> None
                       | Some blocks \<Rightarrow>
                           (let request =
                                  \<lparr>authorization = js ''Bearer ''
                                      @ orElse (NOTION_TOKEN e) (js ''undefined''),
                                   notionVersion = orElse (NOTION_VERSION e) (js ''2022-06-28''),
                                   database_id = INBOX_DB_ID e,
                                   properties = props,
                                   children = (if blocks \<noteq> [] then Some blocks else None)\<rparr>
                            in case notionPages P request of
                                 None \<Rightarrow> Some ([request], Inl FetchRejected)
                               | Some response \<Rightarrow>
                                   if \<not> ok response
                                   then (case extractMissingProperty (orElse (message response) []) of
                                           Some missing \<Rightarrow>
                                             Some ([request], Inl (NotionPropertyMissing missing))
                                         | None \<Rightarrow>
                                             Some ([request], Inl (NotionApiError (status response))))
                                   else Some ([request], Inr ())))))"

text \<open>
  The inbound event: the text decoded from the raw bytes, the mail the parser returns for
  them, and the envelope sender \<open>message.from\<close>.
\<close>

record emailEvent =
  decoded :: jsstring
  parsed :: mail
  envelopeFrom :: "jsstring option"

text \<open>The handler \<open>email\<close> of lines 291 to 316.\<close>

definition email ::
  "platform \<Rightarrow> env \<Rightarrow> jsstring \<Rightarrow> jsstring \<Rightarrow> emailEvent
     \<Rightarrow> (pageCreate list \<times> (error + unit)) option" where
  "email P e receivedAt now ev =
     (case validateEnv e of
        Inl err \<Rightarrow> Some ([], Inl err)
      | Inr _ \<Rightarrow>
          (let rawFallback = decodeRawText (decoded ev);
               m = parsed ev;
               res = resolveMailText (mail_text m) (mail_html m) (Some rawFallback)
           in handleNotionCreate P e receivedAt now m res (envelopeFrom ev)))"

text \<open>
  The debug endpoint. A request is its method, the path of its URL, the value of its
  \<open>Authorization\<close> header when there is one, and what \<open>request.json()\<close> gives: no value
  when the body does not parse, else a JSON value. The fields of an object are read as the
  handler's cast declares them, optional strings; an array has none of them.
\<close>

record debugMail =
  d_subject :: "jsstring option"
  d_text :: "jsstring option"
  d_html :: "jsstring option"
  d_from :: "jsstring option"
  d_to :: "jsstring option"
  d_date :: "jsstring option"
  d_raw :: "jsstring option"

datatype jsonValue =
    JNull
  | JBool bool
  | JNumber int
  | JString jsstring
  | JArray
  | JObject debugMail

record request =
  httpMethod :: jsstring
  pathname :: jsstring
  authorizationHeader :: "jsstring option"
  json :: "jsonValue option"

record response =
  httpStatus :: nat
  httpBody :: jsstring








section \<open>The earlier revision of the mail handler\<close>

text \<open>
  Lines 1 to 243 of \<open>src/index.ts\<close> are the earlier revision of the worker. Its handler
  \<open>email\<close> (lines 31 to 111) tests the subject first; its \<open>normalizeTitle\<close> and
  \<open>resolveMailText\<close> differ from the later ones as written here, the other functions it
  calls are the same.
\<close>

definition normalizeTitle_v1 :: "jsstring \<Rightarrow> jsstring" where
  "normalizeTitle_v1 subject =
     (let cleaned = trim (replaceFirst titlePrefixRx [] subject)
      in if cleaned \<noteq> [] then cleaned else js ''(No title)'')"

definition resolveMailText_v1 :: "jsstring option \<Rightarrow> jsstring option \<Rightarrow> jsstring" where
  "resolveMailText_v1 text html =
     (case usable text of
        Some t \<Rightarrow> trim t
      | None \<Rightarrow> (case usable html of Some h \<Rightarrow> trim (htmlToText h) | None \<Rightarrow> []))"

definition email_v1 ::
  "platform \<Rightarrow> env \<Rightarrow> jsstring \<Rightarrow> mail \<Rightarrow> (pageCreate list \<times> (error + unit)) option" where
  "email_v1 P e now m =
     (let subject = orElse (mail_subject m) []
      in if \<not> test inboxRx subject then Some ([], Inr ())
         else
           (let fromAddress = extractFromAddress (mail_from m);
                allowlist = parseAllowlist P (ALLOWED_FROM e)
            in if (case allowlist of
                     None \<Rightarrow> False
                   | Some entries \<Rightarrow>
                       \<not> truthy fromAddress
                       \<or> toLowerCase P (orElse fromAddress []) \<notin> set entries)
               then Some ([], Inr ())
               else
                 (let rawText = resolveMailText_v1 (mail_text m) (mail_html m);
                      rawPreview = slice rawText 0 RAW_PREVIEW_LIMIT;
                      title = normalizeTitle_v1 subject;
                      createdAt = now;
                      props = [(js ''Name'', Title title),
                               (js ''Created'', Date createdAt),
                               (js ''Source'', buildSourceProperty P (SOURCE_AS_RICH_TEXT e)),
                               (js ''Raw'', RichText rawPreview)]
                  in case buildChildrenBlocks rawText fromAddress of
                       None \<Rightarrow> None
                     | Some blocks \<Rightarrow>
                         (let request =
                                \<lparr>authorization = js ''Bearer ''
                                    @ orElse (NOTION_TOKEN e) (js ''undefined''),
                                 notionVersion = orElse (NOTION_VERSION e) (js ''2022-06-28''),
                                 database_id = INBOX_DB_ID e,
                                 properties = props,
                                 children = (if blocks \<noteq> [] then Some blocks else None)\<rparr>
                          in case notionPages P request of
                               None \<Rightarrow> Some ([request], Inl FetchRejected)
                             | Some response \<Rightarrow>
                                 if \<not> ok response
                                 then Some ([request], Inl (NotionApiError (status response)))
                                 else Some ([request], Inr ())))))"

section \<open>A platform to run the worker on\<close>

text \<open>
  Concrete values for the parts the runtime supplies, used where a function is evaluated
  on an input: ASCII lower-casing, the low byte of each code unit as its encoding, a
  digest of thirty-two bytes (each the length of the data), a date conversion that accepts
  every string unchanged, and a document API that answers every request with status 200.
\<close>

definition samplePlatform :: platform where
  "samplePlatform =
     \<lparr>encode = map ucast,
      digest = (\<lambda>d. replicate 32 (of_nat (length d))),
      toLowerCase = map (\<lambda>c. if 0x41 \<le> c \<and> c \<le> 0x5A then c + 0x20 else c),
      toISOString = Some,
      notionPages = (\<lambda>r. Some \<lparr>status = 200, message = None\<rparr>)\<rparr>"

definition sampleEnv :: env where
  "sampleEnv =
     \<lparr>NOTION_TOKEN = Some (js ''secret_token''), INBOX_DB_ID = Some (js ''db1''),
      NOTION_VERSION = None, ALLOWED_FROM = None, SOURCE_AS_RICH_TEXT = None,
      WORKERS_BEARER_TOKEN = Some (js ''s3cret''), TITLE_PROPERTY = None,
      CREATED_PROPERTY = None, SOURCE_PROPERTY = None, RAW_PROPERTY = None,
      FINGERPRINT_PROPERTY = None\<rparr>"

text \<open>
  An inbound mail whose subject is \<open>Hello\<close>, and the two readings of the clock of one
  invocation.
\<close>

definition sampleEvent :: emailEvent where
  "sampleEvent =
     \<lparr>decoded = js ''Subject: Hello'' @ [0xD, 0xA, 0xD, 0xA] @ js ''Lunch at noon?'',
      parsed = \<lparr>mail_subject = Some (js ''Hello''), mail_text = Some (js ''Lunch at noon?''),
                mail_html = None, mail_from = AObj (Some (js ''me@example.com'')) Absent,
                mail_date = None\<rparr>,
      envelopeFrom = Some (js ''me@example.com'')\<rparr>"

definition sampleReceivedAt :: jsstring where
  "sampleReceivedAt = js ''2024-01-02T00:00:00.000Z''"

definition sampleNow :: jsstring where
  "sampleNow = js ''2024-01-02T00:00:01.000Z''"

section \<open>Facts about slices and the chunk loop\<close>

lemma slice_nonneg:
  "0 \<le> i \<Longrightarrow> 0 \<le> j \<Longrightarrow> slice s i j = take (nat j - nat i) (drop (nat i) s)"
  unfolding slice_def Let_def
  by (cases "i \<le> int (length s)"; cases "j \<le> int (length s)") (simp_all add: nat_diff_distrib' min_def)

lemma chunkCount_zero: "chunkCount 0 n = 0"
  by (cases n) (simp_all add: chunkCount_def)

lemma chunkCount_pos:
  assumes "0 < n" "0 < m"
  shows "chunkCount m n = Suc ((m - 1) div n)"
proof -
  have "m + n - 1 = (m - 1) + n" using assms by linarith
  then have "(m + n - 1) div n = ((m - 1) + n) div n" by (simp only:)
  also have "\<dots> = Suc ((m - 1) div n)" using assms(1) div_add_self2 [of n "m - 1"] by simp
  finally show ?thesis by (simp only: chunkCount_def)
qed

lemma chunkCount_step:
  assumes "0 < n" "0 < m"
  shows "chunkCount m n = Suc (chunkCount (m - n) n)"
proof (cases "n < m")
  case True
  then have "(m - n - 1) + n = m - 1" by linarith
  then have "(m - 1) div n = ((m - n - 1) + n) div n" by (simp only:)
  also have "\<dots> = Suc ((m - n - 1) div n)" using assms(1) div_add_self2 [of n "m - n - 1"] by simp
  finally show ?thesis
    using True assms chunkCount_pos [of n m] chunkCount_pos [of n "m - n"] by simp
next
  case False
  then have "m - n = 0" "(m - 1) div n = 0" using assms by simp_all
  then show ?thesis using assms chunkCount_pos [of n m] by (simp add: chunkCount_zero)
qed

text \<open>
  The closed form of the loop: started at index \<open>i\<close> with a limit \<open>n \<ge> 1\<close> it returns,
  having appended the window of width \<open>n\<close> at \<open>i + k * n\<close> for every \<open>k\<close> below the
  chunk count.
\<close>

lemma windows_done: "length s \<le> i \<Longrightarrow> windows s n i = []"
  by (simp add: windows_def chunkCount_zero)

lemma windows_step:
  assumes "0 < n" "i < length s"
  shows "windows s n i = take n (drop i s) # windows s n (i + n)"
proof -
  let ?c = "chunkCount (length s - (i + n)) n"
  have c: "chunkCount (length s - i) n = Suc ?c"
    using chunkCount_step [of n "length s - i"] assms by simp
  have u: "[0 ..< Suc ?c] = 0 # map Suc [0 ..< ?c]"
    by (simp only: upt_conv_Cons [of 0 "Suc ?c"] map_Suc_upt)
  have e: "\<And>k. i + Suc k * n = i + n + k * n" by simp
  show ?thesis
    unfolding windows_def c u by (simp add: comp_def e del: upt_Suc mult_Suc)
qed

lemma splitLoop_windows:
  assumes "0 < n"
  shows "splitLoop s (int n) (int i) acc = Some (acc @ windows s n i)"
proof (induction "length s - i" arbitrary: i acc rule: less_induct)
  case less
  show ?case
  proof (cases "i < length s")
    case False
    then show ?thesis
      by (subst splitLoop.simps) (simp add: windows_done)
  next
    case True
    have sl: "slice s (int i) (int i + int n) = take n (drop i s)"
      using slice_nonneg [of "int i" "int i + int n" s] by (simp add: nat_add_distrib)
    have "length s - (i + n) < length s - i" using True assms by simp
    from less [OF this]
    have ih: "splitLoop s (int n) (int (i + n)) (acc @ [take n (drop i s)])
              = Some ((acc @ [take n (drop i s)]) @ windows s n (i + n))" .
    have "splitLoop s (int n) (int i) acc
          = splitLoop s (int n) (int i + int n) (acc @ [slice s (int i) (int i + int n)])"
      by (subst splitLoop.simps) (use True in simp)
    also have "\<dots> = Some ((acc @ [take n (drop i s)]) @ windows s n (i + n))"
      using ih by (simp only: sl of_nat_add)
    finally show ?thesis
      using True assms by (simp only: windows_step append_assoc append_Cons append_Nil)
  qed
qed

lemma splitIntoChunks_windows:
  "0 < n \<Longrightarrow> splitIntoChunks s (int n) = Some (windows s n 0)"
  using splitLoop_windows [of n s 0 "[]"]
  by (simp add: splitIntoChunks_def windows_done)

lemma concat_windows: "0 < n \<Longrightarrow> concat (windows s n i) = drop i s"
proof (induction "length s - i" arbitrary: i rule: less_induct)
  case less
  show ?case
  proof (cases "i < length s")
    case False
    then show ?thesis by (simp add: windows_done)
  next
    case True
    have "length s - (i + n) < length s - i" using True less.prems by simp
    from less.hyps [OF this less.prems]
    have "concat (windows s n (i + n)) = drop (i + n) s" .
    moreover have "take n (drop i s) @ drop (i + n) s = drop i s"
      using append_take_drop_id [of n "drop i s"] by (simp add: add.commute)
    ultimately show ?thesis
      using True less.prems by (simp only: windows_step concat.simps)
  qed
qed

lemma length_windows: "length (windows s n i) = chunkCount (length s - i) n"
  by (simp add: windows_def)

lemma nth_windows:
  "k < chunkCount (length s) n \<Longrightarrow> windows s n 0 ! k = take n (drop (k * n) s)"
  by (simp add: windows_def)

lemma chunkCount_nonempty:
  assumes "0 < n" "k < chunkCount m n"
  shows "k * n < m"
proof (rule ccontr)
  assume "\<not> k * n < m"
  then have "m + n - 1 < (k + 1) * n" using assms(1) by simp
  then have "(m + n - 1) div n < k + 1"
    using assms(1) by (simp only: div_less_iff_less_mult)
  then show False using assms(2) by (simp add: chunkCount_def)
qed

lemma chunkCount_bound:
  assumes "0 < n" "Suc k < chunkCount m n"
  shows "(k + 1) * n < m"
  using chunkCount_nonempty [OF assms] by simp

lemma ceil_div:
  assumes "0 < (b::int)"
  shows "- ((- a) div b) = (a + b - 1) div b"
proof (cases "a mod b = 0")
  case True
  have "a = b * (a div b) + a mod b" by simp
  then have "a = b * (a div b)" using True by simp
  then have e: "a + b - 1 = b * (a div b) + (b - 1)" by simp
  have "(a + b - 1) div b = a div b"
    by (rule int_div_pos_eq [where r = "b - 1"]) (use e assms in simp_all)
  then show ?thesis using True assms by (simp add: zdiv_zminus1_eq_if)
next
  case False
  have "0 \<le> a mod b" "a mod b < b" using assms by simp_all
  with False have r: "0 < a mod b" "a mod b < b" by simp_all
  have "a = b * (a div b) + a mod b" by simp
  then have e: "a + b - 1 = b * (a div b + 1) + (a mod b - 1)" by (simp add: algebra_simps)
  have "(a + b - 1) div b = a div b + 1"
    by (rule int_div_pos_eq [where r = "a mod b - 1"]) (use e assms r in simp_all)
  then show ?thesis using False assms by (simp add: zdiv_zminus1_eq_if)
qed

section \<open>Truncation\<close>

text \<open>
  C8, as the code has it. For every string and every limit that is not negative,
  \<open>truncateText\<close> returns at most \<open>limit\<close> code units: the input itself when it is no
  longer than the limit, and else its first \<open>limit\<close> code units.
\<close>

theorem truncateText_bounded:
  "0 \<le> limit \<Longrightarrow>
     int (length (truncateText v limit)) \<le> limit
     \<and> truncateText v limit = (if int (length v) \<le> limit then v else take (nat limit) v)"
  using slice_nonneg [of 0 limit v] by (auto simp: truncateText_def)

theorem truncateText_bounded_witness:
  "(0::int) \<le> 2
   \<and> truncateText (js ''abc'') 2 = js ''ab'' \<and> int (length (truncateText (js ''abc'') 2)) \<le> 2
   \<and> truncateText (js ''a'') 2 = js ''a''"
  using truncateText_bounded [of 2 "js ''abc''"] truncateText_bounded [of 2 "js ''a''"]
  by (simp add: js_def)

text \<open>
  C8 as stated, for every limit, fails at a negative limit: \<open>"abc".slice(0, -1)\<close> is
  \<open>"ab"\<close>, which is longer than -1.
\<close>

theorem truncateText_negative_limit:
  "truncateText (js ''abc'') (- 1) = js ''ab''
   \<and> \<not> int (length (truncateText (js ''abc'') (- 1))) \<le> - 1"
  by (simp add: truncateText_def slice_def js_def)

section \<open>Chunking\<close>

text \<open>
  C5. For every limit \<open>N > 0\<close>, \<open>splitIntoChunks("", N)\<close> is the empty sequence; for every
  text the call returns chunks whose concatenation is the text, the \<open>k\<close>-th chunk being
  the code units from \<open>k * N\<close> up to \<open>(k + 1) * N\<close> (consecutive, in order, without
  overlap), and every chunk but the last has length exactly \<open>N\<close>.
\<close>

theorem splitIntoChunks_partition:
  assumes "0 < limit"
  shows "splitIntoChunks [] limit = Some []
     \<and> (\<exists>chunks. splitIntoChunks text limit = Some chunks
          \<and> concat chunks = text
          \<and> (\<forall>k < length chunks. chunks ! k = take (nat limit) (drop (k * nat limit) text))
          \<and> (\<forall>k. Suc k < length chunks \<longrightarrow> int (length (chunks ! k)) = limit))"
proof -
  define n where "n = nat limit"
  have n: "0 < n" "limit = int n" using assms by (simp_all add: n_def)
  have a: "splitIntoChunks [] limit = Some []" by (simp add: splitIntoChunks_def)
  have b: "splitIntoChunks text limit = Some (windows text n 0)"
    using n(1) unfolding n(2) by (rule splitIntoChunks_windows)
  have c: "concat (windows text n 0) = text"
    using concat_windows [OF n(1), of "text" 0] by simp
  have d: "\<forall>k < length (windows text n 0). windows text n 0 ! k = take n (drop (k * n) text)"
    by (simp add: length_windows nth_windows)
  have e: "int (length (windows text n 0 ! k)) = limit" if "Suc k < length (windows text n 0)" for k
  proof -
    from that have k: "Suc k < chunkCount (length text) n" by (simp add: length_windows)
    then have "(k + 1) * n < length text" using chunkCount_bound [OF n(1)] by blast
    then have "k * n + n \<le> length text" by simp
    moreover have "windows text n 0 ! k = take n (drop (k * n) text)"
      using k by (simp add: nth_windows)
    ultimately show ?thesis by (simp add: n(2))
  qed
  from a b c d e show ?thesis unfolding n_def [symmetric] by blast
qed

theorem splitIntoChunks_partition_witness:
  "(0::int) < 2
   \<and> splitIntoChunks (js ''abcde'') 2 = Some [js ''ab'', js ''cd'', js ''e'']
   \<and> (\<exists>chunks. splitIntoChunks (js ''abcde'') 2 = Some chunks
         \<and> concat chunks = js ''abcde''
         \<and> (\<forall>k < length chunks. chunks ! k = take (nat 2) (drop (k * nat 2) (js ''abcde'')))
         \<and> (\<forall>k. Suc k < length chunks \<longrightarrow> int (length (chunks ! k)) = 2))"
proof -
  have h: "(0::int) < 2" by simp
  have v: "splitIntoChunks (js ''abcde'') 2 = Some [js ''ab'', js ''cd'', js ''e'']"
    by (simp add: splitIntoChunks_def splitLoop.simps slice_def js_def)
  from h v splitIntoChunks_partition [OF h, of "js ''abcde''"] show ?thesis by blast
qed

text \<open>
  C10. For every text and every limit \<open>\<ge> 1\<close> the loop of \<open>splitIntoChunks\<close> ends: the
  call returns a list, of \<open>ceiling (length text / limit)\<close> chunks, none for the empty
  string.
\<close>

theorem splitIntoChunks_terminates:
  assumes "1 \<le> limit"
  shows "\<exists>chunks. splitIntoChunks text limit = Some chunks
           \<and> int (length chunks) = (int (length text) + limit - 1) div limit
           \<and> int (length chunks) = \<lceil>real (length text) / real_of_int limit\<rceil>
           \<and> (text = [] \<longrightarrow> chunks = [])"
proof -
  define n where "n = nat limit"
  have n: "0 < n" "limit = int n" using assms by (simp_all add: n_def)
  have r: "splitIntoChunks text limit = Some (windows text n 0)"
    using n(1) unfolding n(2) by (rule splitIntoChunks_windows)
  have l: "int (length (windows text n 0)) = (int (length text) + limit - 1) div limit"
    using n(1) by (simp add: length_windows chunkCount_def zdiv_int of_nat_diff n(2))
  have c: "(int (length text) + limit - 1) div limit = \<lceil>real (length text) / real_of_int limit\<rceil>"
    using ceiling_divide_eq_div [of "int (length text)" limit, where ?'a = real]
      ceil_div [of limit "int (length text)"] assms by simp
  have z: "text = [] \<longrightarrow> windows text n 0 = []"
    by (simp add: windows_done)
  from r l c z show ?thesis by simp
qed

theorem splitIntoChunks_terminates_witness:
  "(1::int) \<le> 2
   \<and> (\<exists>chunks. splitIntoChunks (js ''abcde'') 2 = Some chunks \<and> int (length chunks) = 3)"
proof -
  have h: "(1::int) \<le> 2" by simp
  have l: "(int (length (js ''abcde'')) + 2 - 1) div 2 = 3" by (simp add: js_def)
  obtain chunks where "splitIntoChunks (js ''abcde'') 2 = Some chunks"
    "int (length chunks) = (int (length (js ''abcde'')) + 2 - 1) div 2"
    using splitIntoChunks_terminates [OF h, of "js ''abcde''"] by blast
  with h l show ?thesis by (simp only:) simp
qed

section \<open>Trimming\<close>

lemma dropWhile_fixed: "xs = [] \<or> \<not> P (hd xs) \<Longrightarrow> dropWhile P xs = xs"
  by (cases xs) auto

lemma dropWhile_head: "dropWhile P xs = [] \<or> \<not> P (hd (dropWhile P xs))"
  using hd_dropWhile [of P xs] by blast

lemma trim_no_leading: "trim s = [] \<or> \<not> isWhiteSpace (hd (trim s))"
proof (cases "trim s = []")
  case False
  define u where "u = dropWhile isWhiteSpace s"
  define v where "v = dropWhile isWhiteSpace (rev u)"
  have t: "trim s = rev v" by (simp add: trim_def u_def v_def)
  have "rev u = takeWhile isWhiteSpace (rev u) @ v" by (simp add: v_def)
  then have "u = rev v @ rev (takeWhile isWhiteSpace (rev u))"
    by (metis rev_append rev_rev_ident)
  moreover have "rev v \<noteq> []" using False t by simp
  ultimately have "hd u = hd (rev v)" "u \<noteq> []" by (metis hd_append2, metis append_is_Nil_conv)
  moreover have "\<not> isWhiteSpace (hd u)" using dropWhile_head [of isWhiteSpace s] \<open>u \<noteq> []\<close>
    unfolding u_def by blast
  ultimately show ?thesis using t by simp
qed simp

lemma trim_no_trailing: "trim s = [] \<or> \<not> isWhiteSpace (hd (rev (trim s)))"
  using dropWhile_head [of isWhiteSpace "rev (dropWhile isWhiteSpace s)"]
  by (simp add: trim_def)

lemma trim_idem: "trim (trim s) = trim s"
proof -
  have a: "dropWhile isWhiteSpace (trim s) = trim s"
    using trim_no_leading [of s] by (intro dropWhile_fixed) simp
  have b: "dropWhile isWhiteSpace (rev (trim s)) = rev (trim s)"
    using trim_no_trailing [of s] by (intro dropWhile_fixed) simp
  show ?thesis
    by (subst trim_def) (simp only: a b rev_rev_ident)
qed

lemma trim_empty_iff: "trim s = [] \<longleftrightarrow> (\<forall>c \<in> set s. isWhiteSpace c)"
proof
  assume "trim s = []"
  then have "dropWhile isWhiteSpace (rev (dropWhile isWhiteSpace s)) = []"
    by (simp add: trim_def)
  then have "\<forall>c \<in> set (dropWhile isWhiteSpace s). isWhiteSpace c"
    by (simp add: dropWhile_eq_Nil_conv)
  then have "dropWhile isWhiteSpace s = []"
    using dropWhile_head [of isWhiteSpace s] by (metis hd_in_set)
  then show "\<forall>c \<in> set s. isWhiteSpace c" by (simp add: dropWhile_eq_Nil_conv)
next
  assume "\<forall>c \<in> set s. isWhiteSpace c"
  then have d: "dropWhile isWhiteSpace s = []" by (simp add: dropWhile_eq_Nil_conv)
  show "trim s = []" by (simp only: trim_def d) simp
qed

lemma usable_nonBlank: "usable v = (if nonBlank v then v else None)"
  by (cases v) (auto simp: usable_def nonBlank_def trim_empty_iff)

lemmas rx_eval = exec_def test_def replaceFirst_def replaceAll_def seqs_def Opt_def Plus_def
  upperAscii_def ciEq_def lit_def liti_def isWordChar_def ch_def js_def isWhiteSpace_def
  trim_def slice_def

section \<open>Where a match ends\<close>

lemma greedy_end:
  assumes "greedy p k i c s = Some res"
  shows "\<exists>j s' c'. k (j, s', c') = Some res \<and> i \<le> j \<and> j + length s' = i + length s"
  using assms
proof (induction s arbitrary: i)
  case Nil
  then have "k (i, [], c) = Some res" by simp
  then show ?case by (intro exI [of _ i] exI [of _ "[]"] exI [of _ c]) simp
next
  case (Cons x xs)
  show ?case
  proof (cases "p x \<and> greedy p k (Suc i) c xs \<noteq> None")
    case True
    then obtain r where r: "greedy p k (Suc i) c xs = Some r" by auto
    with True Cons.prems have "r = res" by simp
    with Cons.IH [of "Suc i"] r show ?thesis by fastforce
  next
    case False
    then have "k (i, x # xs, c) = Some res" using Cons.prems by (auto split: if_splits option.splits)
    then show ?thesis by (intro exI [of _ i] exI [of _ "x # xs"] exI [of _ c]) simp
  qed
qed

lemma rxm_end:
  "rxm r k (i, s, c) = Some res \<Longrightarrow>
     \<exists>j s' c'. k (j, s', c') = Some res \<and> i + minLen r \<le> j \<and> j + length s' = i + length s"
proof (induction r arbitrary: k i s c res)
  case (Any p)
  then obtain x xs where "s = x # xs" "k (Suc i, xs, c) = Some res"
    by (cases s) (auto split: if_splits)
  then show ?case by (intro exI [of _ "Suc i"] exI [of _ xs] exI [of _ c]) simp
next
  case Bol
  then have "k (i, s, c) = Some res" by (auto split: if_splits)
  then show ?case by (intro exI [of _ i] exI [of _ s] exI [of _ c]) simp
next
  case Emp
  then have "k (i, s, c) = Some res" by simp
  then show ?case by (intro exI [of _ i] exI [of _ s] exI [of _ c]) simp
next
  case (Seq a b)
  from Seq.prems have "rxm a (rxm b k) (i, s, c) = Some res" by simp
  from Seq.IH(1) [OF this] obtain j s' c' where
    m: "rxm b k (j, s', c') = Some res" "i + minLen a \<le> j" "j + length s' = i + length s"
    by blast
  from Seq.IH(2) [OF m(1)] obtain j2 s2 c2 where
    "k (j2, s2, c2) = Some res" "j + minLen b \<le> j2" "j2 + length s2 = j + length s'"
    by blast
  with m show ?case by (intro exI [of _ j2] exI [of _ s2] exI [of _ c2]) simp
next
  case (Alt a b)
  show ?case
  proof (cases "rxm a k (i, s, c)")
    case None
    with Alt.prems have "rxm b k (i, s, c) = Some res" by simp
    from Alt.IH(2) [OF this] show ?thesis by fastforce
  next
    case (Some r)
    with Alt.prems have "rxm a k (i, s, c) = Some res" by simp
    from Alt.IH(1) [OF this] show ?thesis by fastforce
  qed
next
  case (Star p)
  then have "greedy p k i c s = Some res" by simp
  from greedy_end [OF this] show ?case by simp
next
  case (Grp a)
  from Grp.prems
  have "rxm a (\<lambda>(j, s', _). k (j, s', Some (take (j - i) s))) (i, s, c) = Some res" by simp
  from Grp.IH [OF this] show ?case by fastforce
qed

lemma execFrom_end:
  "execFrom r i s = Some (a, b, c) \<Longrightarrow> i \<le> a \<and> a + minLen r \<le> b \<and> b \<le> i + length s"
proof (induction s arbitrary: i)
  case Nil
  then obtain st where st: "rxm r Some (i, [], None) = Some st" "st = (b, fst (snd st), c)" "a = i"
    by (auto split: option.splits)
  from rxm_end [OF st(1)] st(2,3) show ?case by auto
next
  case (Cons x xs)
  show ?case
  proof (cases "rxm r Some (i, x # xs, None)")
    case None
    with Cons.prems have "execFrom r (Suc i) xs = Some (a, b, c)" by simp
    from Cons.IH [OF this] show ?thesis by simp
  next
    case (Some st)
    with Cons.prems have e: "st = (b, fst (snd st), c)" "a = i" by (auto split: prod.splits)
    from rxm_end [OF Some] e show ?thesis by auto
  qed
qed

lemma exec_end:
  "exec r s = Some (a, b, c) \<Longrightarrow> a + minLen r \<le> b \<and> b \<le> length s"
  using execFrom_end [of r 0 s a b c] by (simp add: exec_def)

lemma length_trim: "length (trim s) \<le> length s"
proof -
  have "length (trim s) \<le> length (dropWhile isWhiteSpace s)"
    unfolding trim_def
    using length_dropWhile_le [of isWhiteSpace "rev (dropWhile isWhiteSpace s)"] by simp
  also have "\<dots> \<le> length s" by (rule length_dropWhile_le)
  finally show ?thesis .
qed

lemma minLen_titlePrefixRx: "minLen titlePrefixRx = 5"
  by (simp add: titlePrefixRx_def seqs_def liti_def lit_def js_def)

lemma normalizeTitle_shorter:
  assumes "test titlePrefixRx t"
  shows "length (normalizeTitle t) < length t"
proof -
  from assms obtain a b c where e: "exec titlePrefixRx t = Some (a, b, c)"
    by (auto simp: test_def)
  from exec_end [OF e] have "a + 5 \<le> b" "b \<le> length t" by (simp_all add: minLen_titlePrefixRx)
  then have "length (take a t @ [] @ drop b t) < length t" by simp
  moreover have "normalizeTitle t = trim (take a t @ [] @ drop b t)"
    by (simp add: normalizeTitle_def replaceFirst_def e)
  ultimately show ?thesis using length_trim [of "take a t @ [] @ drop b t"] by simp
qed

section \<open>The marker test\<close>

lemma rxm_classes:
  "rxm (seqs (map Any ps)) k (i, s, c) =
     (if length ps \<le> length s \<and> list_all2 (\<lambda>p x. p x) ps (take (length ps) s)
      then k (i + length ps, drop (length ps) s, c) else None)"
proof (induction ps arbitrary: i s)
  case Nil
  show ?case by (simp add: seqs_def)
next
  case (Cons p ps)
  have u: "seqs (map Any (p # ps)) = Seq (Any p) (seqs (map Any ps))" by (simp add: seqs_def)
  show ?case
  proof (cases s)
    case Nil
    then show ?thesis unfolding u by simp
  next
    case (Cons x xs)
    then show ?thesis unfolding u using Cons.IH [of "Suc i" xs] by simp
  qed
qed

lemma execFrom_matches:
  "execFrom r i s \<noteq> None \<longleftrightarrow> (\<exists>n \<le> length s. rxm r Some (i + n, drop n s, None) \<noteq> None)"
proof (induction s arbitrary: i)
  case Nil
  show ?case by (auto split: option.splits)
next
  case (Cons x xs)
  show ?case
  proof (cases "rxm r Some (i, x # xs, None)")
    case (Some st)
    then have "execFrom r i (x # xs) \<noteq> None" by (auto split: prod.splits)
    moreover have "\<exists>n \<le> length (x # xs). rxm r Some (i + n, drop n (x # xs), None) \<noteq> None"
      using Some by (intro exI [of _ 0]) simp
    ultimately show ?thesis by blast
  next
    case None
    have "(\<exists>n \<le> length (x # xs). rxm r Some (i + n, drop n (x # xs), None) \<noteq> None)
          \<longleftrightarrow> (\<exists>n \<le> length xs. rxm r Some (Suc i + n, drop n xs, None) \<noteq> None)"
    proof
      assume "\<exists>n \<le> length (x # xs). rxm r Some (i + n, drop n (x # xs), None) \<noteq> None"
      then obtain n where n: "n \<le> length (x # xs)" "rxm r Some (i + n, drop n (x # xs), None) \<noteq> None"
        by blast
      with None obtain m where "n = Suc m" by (cases n) auto
      with n show "\<exists>n \<le> length xs. rxm r Some (Suc i + n, drop n xs, None) \<noteq> None"
        by (intro exI [of _ m]) simp
    next
      assume "\<exists>n \<le> length xs. rxm r Some (Suc i + n, drop n xs, None) \<noteq> None"
      then obtain m where "m \<le> length xs" "rxm r Some (Suc i + m, drop m xs, None) \<noteq> None"
        by blast
      then show "\<exists>n \<le> length (x # xs). rxm r Some (i + n, drop n (x # xs), None) \<noteq> None"
        by (intro exI [of _ "Suc m"]) simp
    qed
    then show ?thesis using None Cons.IH [of "Suc i"] by simp
  qed
qed

lemma upperAscii_ascii: "upperAscii c = x \<Longrightarrow> x < 0x80 \<Longrightarrow> c < 0x80"
proof (cases "0x61 \<le> c \<and> c \<le> 0x7A")
  case True
  then have "c \<le> 0x7A" by simp
  moreover have "(0x7A::cu) < 0x80" by simp
  ultimately show ?thesis by (rule order_le_less_trans)
next
  case False
  then have "upperAscii c = c" by (auto simp: upperAscii_def)
  moreover assume "upperAscii c = x" "x < 0x80"
  ultimately show ?thesis by simp
qed

lemma ciEq_letter:
  "upperAscii a < 0x80 \<Longrightarrow> ciEq a c \<longleftrightarrow> upperAscii c = upperAscii a"
  using upperAscii_ascii [where c = c and x = "upperAscii a"] by (auto simp: ciEq_def)

lemma ciEq_upper:
  "list_all2 (\<lambda>p x. p x) (map ciEq (js ''inbox'')) w \<longleftrightarrow> map upperAscii w = js ''INBOX''"
proof -
  have u: "upperAscii 0x69 = 0x49" "upperAscii 0x6E = 0x4E" "upperAscii 0x62 = 0x42"
    "upperAscii 0x6F = 0x4F" "upperAscii 0x78 = 0x58"
    by (simp_all add: upperAscii_def)
  have c: "ciEq 0x69 x \<longleftrightarrow> upperAscii x = 0x49" "ciEq 0x6E x \<longleftrightarrow> upperAscii x = 0x4E"
    "ciEq 0x62 x \<longleftrightarrow> upperAscii x = 0x42" "ciEq 0x6F x \<longleftrightarrow> upperAscii x = 0x4F"
    "ciEq 0x78 x \<longleftrightarrow> upperAscii x = 0x58" for x
    using ciEq_letter [of "0x69" x] ciEq_letter [of "0x6E" x] ciEq_letter [of "0x62" x]
      ciEq_letter [of "0x6F" x] ciEq_letter [of "0x78" x]
    by (simp_all add: u)
  show ?thesis
    by (auto simp: js_def list_all2_Cons1 map_eq_Cons_conv c)
qed

text \<open>
  The test \<open>/inbox/i\<close> holds exactly of the subjects that contain \<open>INBOX\<close> at some
  position, in any letter case.
\<close>

lemma test_inboxRx:
  "test inboxRx s \<longleftrightarrow> (\<exists>pre w post. s = pre @ w @ post \<and> map upperAscii w = js ''INBOX'')"
proof -
  have r: "inboxRx = seqs (map Any (map ciEq (js ''inbox'')))"
    by (simp add: inboxRx_def liti_def comp_def)
  have l: "length (map ciEq (js ''inbox'')) = 5" by (simp add: js_def)
  have m: "rxm inboxRx Some (n, drop n s, None) \<noteq> None \<longleftrightarrow>
           5 \<le> length (drop n s) \<and> map upperAscii (take 5 (drop n s)) = js ''INBOX''" for n
    unfolding r rxm_classes l by (simp add: ciEq_upper)
  show ?thesis
  proof
    assume "test inboxRx s"
    then obtain n where "5 \<le> length (drop n s)" "map upperAscii (take 5 (drop n s)) = js ''INBOX''"
      using execFrom_matches [of inboxRx 0 s] m by (auto simp: test_def exec_def)
    moreover have "s = take n s @ take 5 (drop n s) @ drop 5 (drop n s)"
      by (simp only: append_take_drop_id)
    ultimately show "\<exists>pre w post. s = pre @ w @ post \<and> map upperAscii w = js ''INBOX''"
      by blast
  next
    assume "\<exists>pre w post. s = pre @ w @ post \<and> map upperAscii w = js ''INBOX''"
    then obtain pre w post where s: "s = pre @ w @ post" and w: "map upperAscii w = js ''INBOX''"
      by blast
    from w have "length w = 5" using length_map [of upperAscii w] by (simp add: js_def)
    with s w have "length pre \<le> length s" "5 \<le> length (drop (length pre) s)"
      "map upperAscii (take 5 (drop (length pre) s)) = js ''INBOX''"
      by simp_all
    with m [of "length pre"] have "\<exists>n \<le> length s. rxm inboxRx Some (0 + n, drop n s, None) \<noteq> None"
      by (intro exI [of _ "length pre"]) simp
    then show "test inboxRx s"
      using execFrom_matches [of inboxRx 0 s] by (simp add: test_def exec_def)
  qed
qed

section \<open>Titles\<close>

lemma replaceFirst_no_match: "\<not> test r s \<Longrightarrow> replaceFirst r rep s = s"
  by (cases "exec r s") (simp_all add: test_def replaceFirst_def)

text \<open>
  C7. \<open>buildTitle\<close> never returns the empty string: it returns the normalized subject
  when that is not empty, and else \<open>"Inbox email "\<close> followed by the first ten code units
  of the timestamp; the two examples of the specification evaluate as it says.
\<close>

theorem buildTitle_result:
  "buildTitle subject date \<noteq> []
   \<and> buildTitle subject date =
       (if normalizeTitle subject \<noteq> [] then normalizeTitle subject
        else js ''Inbox email '' @ take 10 date)
   \<and> buildTitle (js '''') (js ''2024-02-03T00:00:00.000Z'') = js ''Inbox email 2024-02-03''
   \<and> buildTitle (js ''INBOX: Hello from unit test'') date = js ''Hello from unit test''"
proof -
  have s: "slice date 0 10 = take 10 date"
    using slice_nonneg [of 0 10 date] by simp
  have a: "buildTitle subject date =
       (if normalizeTitle subject \<noteq> [] then normalizeTitle subject
        else js ''Inbox email '' @ take 10 date)"
    by (simp add: buildTitle_def Let_def s)
  have b: "buildTitle subject date \<noteq> []"
    unfolding a by (simp add: js_def)
  have c: "buildTitle (js '''') (js ''2024-02-03T00:00:00.000Z'') = js ''Inbox email 2024-02-03''"
    by (simp add: buildTitle_def normalizeTitle_def titlePrefixRx_def rx_eval)
  have n: "normalizeTitle (js ''INBOX: Hello from unit test'') = js ''Hello from unit test''"
    by (simp add: normalizeTitle_def titlePrefixRx_def rx_eval)
  have d: "buildTitle (js ''INBOX: Hello from unit test'') date = js ''Hello from unit test''"
    by (simp add: buildTitle_def n) (simp add: js_def)
  from a b c d show ?thesis by blast
qed

text \<open>
  C3, as the code has it. \<open>normalizeTitle\<close> removes one leading marker and trims:
  applied to its own result it changes nothing exactly when that result does not begin
  with a marker again.
\<close>

theorem normalizeTitle_idempotent:
  "normalizeTitle (normalizeTitle s) = normalizeTitle s
     \<longleftrightarrow> \<not> test titlePrefixRx (normalizeTitle s)"
proof
  assume e: "normalizeTitle (normalizeTitle s) = normalizeTitle s"
  show "\<not> test titlePrefixRx (normalizeTitle s)"
  proof
    assume "test titlePrefixRx (normalizeTitle s)"
    then have "length (normalizeTitle (normalizeTitle s)) < length (normalizeTitle s)"
      by (rule normalizeTitle_shorter)
    then show False using e by simp
  qed
next
  assume "\<not> test titlePrefixRx (normalizeTitle s)"
  then have "replaceFirst titlePrefixRx [] (normalizeTitle s) = normalizeTitle s"
    by (rule replaceFirst_no_match)
  then have "normalizeTitle (normalizeTitle s) = trim (normalizeTitle s)"
    by (simp add: normalizeTitle_def)
  also have "\<dots> = normalizeTitle s"
    by (simp add: normalizeTitle_def trim_idem)
  finally show "normalizeTitle (normalizeTitle s) = normalizeTitle s" .
qed

theorem normalizeTitle_idempotent_witness:
  "\<not> test titlePrefixRx (normalizeTitle (js ''[INBOX] - Buy milk ''))
   \<and> normalizeTitle (js ''[INBOX] - Buy milk '') = js ''Buy milk''
   \<and> normalizeTitle (normalizeTitle (js ''[INBOX] - Buy milk '')) = js ''Buy milk''"
proof -
  have n: "normalizeTitle (js ''[INBOX] - Buy milk '') = js ''Buy milk''"
    by (simp add: normalizeTitle_def titlePrefixRx_def rx_eval)
  have h: "\<not> test titlePrefixRx (normalizeTitle (js ''[INBOX] - Buy milk ''))"
    unfolding n by (simp add: titlePrefixRx_def rx_eval)
  from normalizeTitle_idempotent [of "js ''[INBOX] - Buy milk ''"] h n show ?thesis by simp
qed

text \<open>
  C3 as stated, for every string, fails on a subject with two markers: the first call
  removes one, the second call the other.
\<close>

theorem normalizeTitle_twice:
  "normalizeTitle (js ''INBOX: inbox - report'') = js ''inbox - report''
   \<and> normalizeTitle (normalizeTitle (js ''INBOX: inbox - report'')) = js ''report''
   \<and> normalizeTitle (normalizeTitle (js ''INBOX: inbox - report''))
       \<noteq> normalizeTitle (js ''INBOX: inbox - report'')"
proof -
  have a: "normalizeTitle (js ''INBOX: inbox - report'') = js ''inbox - report''"
    by (simp add: normalizeTitle_def titlePrefixRx_def rx_eval)
  have b: "normalizeTitle (js ''inbox - report'') = js ''report''"
    by (simp add: normalizeTitle_def titlePrefixRx_def rx_eval)
  show ?thesis unfolding a b by (simp add: js_def)
qed

section \<open>Body resolution\<close>

text \<open>
  C4. \<open>resolveMailText\<close> is a total function (it has no failing branch) and follows the
  policy, the first match winning: the trimmed plain text when that is non-blank, else the
  trimmed conversion of the HTML when that is non-blank, else the trimmed raw fallback
  when that is non-blank, else the empty string; non-blank is: given, and with a code unit
  that is not white space.
\<close>

theorem resolveMailText_policy:
  "resolveMailText text html rawFallback =
     (if nonBlank text then \<lparr>body = trim (the text), source = SrcText\<rparr>
      else if nonBlank html then \<lparr>body = trim (htmlToText (the html)), source = SrcHtml\<rparr>
      else if nonBlank rawFallback then \<lparr>body = trim (the rawFallback), source = SrcRaw\<rparr>
      else \<lparr>body = [], source = SrcEmpty\<rparr>)"
  by (cases "text"; cases html; cases rawFallback)
     (simp_all add: resolveMailText_def usable_nonBlank nonBlank_def)

section \<open>Fingerprints\<close>








section \<open>Content blocks\<close>







section \<open>The subject gate\<close>

text \<open>
  The earlier handler makes no request for a subject without the marker, and every
  request it makes is for a subject that contains it.
\<close>

lemma email_v1_gate:
  assumes "\<not> (\<exists>pre w post. orElse (mail_subject m) [] = pre @ w @ post
                 \<and> map upperAscii w = js ''INBOX'')"
  shows "email_v1 P e now m = Some ([], Inr ())"
  using assms by (simp add: email_v1_def Let_def test_inboxRx)

lemma email_v1_calls:
  assumes "email_v1 P e now m = Some (calls, out)" "calls \<noteq> []"
  shows "\<exists>pre w post. orElse (mail_subject m) [] = pre @ w @ post \<and> map upperAscii w = js ''INBOX''"
proof (rule ccontr)
  assume "\<not> ?thesis"
  from email_v1_gate [OF this] assms show False by simp
qed

text \<open>
  The later handler never reads the marker: with the configuration present, no allowlist
  and no date in the mail, it sends one request whatever the subject is, and returns
  normally when the document API answers 200.
\<close>

lemma email_sends_for_any_subject:
  assumes "validateEnv e = Inr ()" "ALLOWED_FROM e = None" "mail_date (parsed ev) = None"
    and "\<And>r. notionPages P r = Some \<lparr>status = 200, message = None\<rparr>"
  shows "\<exists>request. email P e receivedAt now ev = Some ([request], Inr ())"
proof -
  have a: "parseAllowlist P (ALLOWED_FROM e) = None"
    using assms(2) by (simp add: parseAllowlist_def)
  let ?m = "parsed ev"
  let ?res = "resolveMailText (mail_text ?m) (mail_html ?m) (Some (decodeRawText (decoded ev)))"
  let ?from = "case extractFromAddress (mail_from ?m) of Some a \<Rightarrow> Some a | None \<Rightarrow> envelopeFrom ev"
  obtain blocks where b: "buildChildrenBlocks (body ?res) ?from = Some blocks"
    using splitIntoChunks_windows [of 1500 "body ?res"]
    by (simp add: buildChildrenBlocks_def CHILD_BLOCK_LIMIT_def Let_def)
  show ?thesis
    using assms(1,3,4) a b
    by (simp add: email_def handleNotionCreate_def Let_def truthy_def ok_def)
qed

lemma email_v1_sample:
  "email_v1 samplePlatform sampleEnv sampleNow (parsed sampleEvent) = Some ([], Inr ())"
  by code_simp

text \<open>
  C1 on the handler \<open>email\<close> of lines 291 to 316. The subject \<open>Hello\<close> does not contain
  the marker, and the handler sends the create request for it, titled \<open>Hello\<close>: the test
  of lines 36 to 42 is gone from this handler and from \<open>handleNotionCreate\<close>. The earlier
  handler skips the same mail, as the lemma before this one shows.
\<close>

theorem email_without_marker:
  "\<not> test inboxRx (js ''Hello'')
   \<and> email samplePlatform sampleEnv sampleReceivedAt sampleNow sampleEvent =
       Some ([\<lparr>authorization = js ''Bearer secret_token'',
                notionVersion = js ''2022-06-28'',
                database_id = Some (js ''db1''),
                properties =
                  [(js ''Name'', Title (js ''Hello'')),
                   (js ''Created'', Date (js ''2024-01-02T00:00:01.000Z'')),
                   (js ''Source'', Select (js ''Email'')),
                   (js ''Raw'', RichText (js ''Lunch at noon?'')),
                   (js ''Fingerprint'', RichText (concat (replicate 32 (js ''6e''))))],
                children = Some [Paragraph (js ''From: me@example.com''),
                                 Paragraph (js ''Lunch at noon?'')]\<rparr>],
             Inr ())"
  by code_simp

section \<open>The debug endpoint\<close>








end
